theory Spec2Isabelle
  imports Complex_Main
begin

section \<open>Values and errors\<close>

text \<open>
  The arrays of \<^verbatim>\<open>lapnet/hamiltonian.py\<close> hold floating-point numbers. They are
  modelled by real numbers, with one extra value for the special values (infinities and
  NaN) that a division by zero produces: \<open>NonFin\<close>. A special value is absorbing under
  the additions and negations the module performs on it.
\<close>

datatype fl = Fin real | NonFin

datatype error = ValueError | IndexError | BroadcastError | NegativeShape | DimensionMismatch

instantiation fl :: comm_monoid_add
begin

definition zero_fl :: fl where
  "zero_fl = Fin 0"

fun plus_fl :: "fl \<Rightarrow> fl \<Rightarrow> fl" where
  "plus_fl (Fin a) (Fin b) = Fin (a + b)"
| "plus_fl _ _ = NonFin"

lemma plus_fl_NonFin [simp]: "x + NonFin = NonFin" "NonFin + x = NonFin"
  by (cases x; simp)+

instance
proof (standard, goal_cases)
  case (1 x y z)
  then show ?case
    by (cases x; cases y; cases z; simp)
next
  case (2 x y)
  then show ?case
    by (cases x; cases y; simp)
next
  case (3 x)
  then show ?case
    by (cases x; simp add: zero_fl_def)
qed

end

fun fl_neg :: "fl \<Rightarrow> fl" where
  "fl_neg (Fin a) = Fin (- a)"
| "fl_neg NonFin = NonFin"

text \<open>Division of two finite numbers: a zero divisor gives a special value.\<close>

definition fdiv :: "real \<Rightarrow> real \<Rightarrow> fl" where
  "fdiv a b = (if b = 0 then NonFin else Fin (a / b))"

text \<open>Sequencing of computations that may raise.\<close>

fun bind :: "error + 'a \<Rightarrow> ('a \<Rightarrow> error + 'b) \<Rightarrow> error + 'b" where
  "bind (Inl e) f = Inl e"
| "bind (Inr v) f = f v"

section \<open>The kinetic energy\<close>

text \<open>
  The log-magnitude function \<open>f\<close> is an opaque callable that JAX differentiates. Its
  model is the record of what the differentiation operators return for it:
  \<^item> \<open>logabs\<close>: the value \<^verbatim>\<open>f(params, x)\<close>;
  \<^item> \<open>grad\<close>: \<^verbatim>\<open>jax.grad(f, argnums=1)(params, x)\<close>;
  \<^item> \<open>hess\<close>: the entries of the second derivative at \<open>x\<close>, from which
    \<^verbatim>\<open>jax.linearize\<close> of the gradient and \<^verbatim>\<open>jet.jet\<close> compute;
  \<^item> \<open>fwd_lap\<close>, \<open>fwd_grad\<close>: \<^verbatim>\<open>output.get(TupType.LAP)\<close> and
    \<^verbatim>\<open>output.get(TupType.GRAD)\<close> of \<^verbatim>\<open>f(params, LapTuple(data, is_input=True))\<close>.
\<close>

record 'p wavefn =
  logabs :: "'p \<Rightarrow> real list \<Rightarrow> real"
  grad :: "'p \<Rightarrow> real list \<Rightarrow> real list"
  hess :: "'p \<Rightarrow> real list \<Rightarrow> nat \<Rightarrow> nat \<Rightarrow> real"
  fwd_lap :: "'p \<Rightarrow> real list \<Rightarrow> real"
  fwd_grad :: "'p \<Rightarrow> real list \<Rightarrow> real list"

text \<open>\<^verbatim>\<open>jnp.eye(n)[i]\<close>; an index beyond the last row is clamped to it.\<close>

definition eye_row :: "nat \<Rightarrow> nat \<Rightarrow> real list" where
  "eye_row n i = map (\<lambda>j. if j = min i (n - 1) then 1 else 0) [0..<n]"

text \<open>\<^verbatim>\<open>jnp.sum(v**2)\<close> of a vector.\<close>

definition sum_sq :: "real list \<Rightarrow> real" where
  "sum_sq v = sum_list (map (\<lambda>x. x ^ 2) v)"

text \<open>
  \<^verbatim>\<open>primal, dgrad_f = jax.linearize(grad_f_closure, data)\<close>: the gradient at
  \<open>data\<close>, and the map of a direction \<open>v\<close> to the directional derivative of the
  gradient, the product of the second derivative with \<open>v\<close>.
\<close>

definition linearize_grad ::
  "'p wavefn \<Rightarrow> 'p \<Rightarrow> real list \<Rightarrow> real list \<times> (real list \<Rightarrow> real list)" where
  "linearize_grad W params data =
     (grad W params data,
      \<lambda>v. map (\<lambda>r. \<Sum>j\<leftarrow>[0..<length data]. hess W params data r j * v ! j)
             [0..<length data])"

text \<open>
  \<^verbatim>\<open>lax.fori_loop(lower, upper, body, init)\<close>: the body runs on
  \<open>lower, ..., upper - 1\<close> in turn, carrying the value.
\<close>

function fori_loop :: "nat \<Rightarrow> nat \<Rightarrow> (nat \<Rightarrow> 'a \<Rightarrow> 'a) \<Rightarrow> 'a \<Rightarrow> 'a" where
  "fori_loop lower upper body val =
     (if lower < upper then fori_loop (Suc lower) upper body (body lower val) else val)"
  by pat_completeness auto
termination
  by (relation "measure (\<lambda>(lower, upper, body, val). upper - lower)") auto

declare fori_loop.simps [simp del]

text \<open>
  \<^verbatim>\<open>lax.scan(f, init, None, length=n)\<close>: \<open>f\<close> maps the carry to the next carry and
  one output, \<open>n\<close> times; the result is the last carry and the outputs in order.
\<close>

fun scan :: "('c \<Rightarrow> 'c \<times> 'y) \<Rightarrow> 'c \<Rightarrow> nat \<Rightarrow> 'c \<times> 'y list" where
  "scan f init 0 = (init, [])"
| "scan f init (Suc n) =
     (case f init of (carry, y) \<Rightarrow>
        (case scan f carry n of (final, ys) \<Rightarrow> (final, y # ys)))"

text \<open>
  The exact loop-based algorithm, \<^verbatim>\<open>_lapl_over_f(params, data, rng)\<close>. The body
  of either loop is traced once even when it runs no time, and on an empty
  configuration \<^verbatim>\<open>eye[i]\<close> indexes an axis of length zero: an
  \<^verbatim>\<open>IndexError\<close> under both disciplines.
\<close>

definition lapl_over_f ::
  "'p wavefn \<Rightarrow> bool \<Rightarrow> 'p \<Rightarrow> real list \<Rightarrow> 'k \<Rightarrow> error + fl" where
  "lapl_over_f W use_scan params data rng =
     (let n = length data;
          (primal, dgrad_f) = linearize_grad W params data
      in if n = 0 then Inl IndexError
         else
           let result =
             (if use_scan then
                (case scan (\<lambda>i. (i + 1, dgrad_f (eye_row n i) ! i)) 0 n of
                   (_, diagonal) \<Rightarrow> - 0.5 * sum_list diagonal)
              else
                - 0.5 * fori_loop 0 n (\<lambda>i val. val + dgrad_f (eye_row n i) ! i) 0)
           in Inr (Fin (result - 0.5 * sum_sq primal)))"

text \<open>The forward-propagated algorithm, \<^verbatim>\<open>_forward_lapl_over_f(params, data, rng)\<close>.\<close>

definition forward_lapl_over_f ::
  "'p wavefn \<Rightarrow> 'p \<Rightarrow> real list \<Rightarrow> 'k \<Rightarrow> error + fl" where
  "forward_lapl_over_f W params data rng =
     Inr (Fin (- 0.5 * fwd_lap W params data - 0.5 * sum_sq (fwd_grad W params data)))"

section \<open>Dimension sampling and probe vectors\<close>

text \<open>
  The JAX random primitives are pure functions of the key. They are parameters of the
  model:
  \<^item> \<open>choice key a n\<close>: the \<open>n\<close> indices that
    \<^verbatim>\<open>jax.random.choice(key, a, shape=(n,), replace=False)\<close> draws when \<open>n \<le> a\<close>;
  \<^item> \<open>normal key m d\<close>: \<^verbatim>\<open>jax.random.normal(key, shape=(m, d))\<close>;
  \<^item> \<open>randint key m d lo hi\<close>:
    \<^verbatim>\<open>jax.random.randint(key, shape=(m, d), minval=lo, maxval=hi)\<close>.
\<close>

record 'k prng =
  choice :: "'k \<Rightarrow> nat \<Rightarrow> nat \<Rightarrow> nat list"
  normal :: "'k \<Rightarrow> nat \<Rightarrow> nat \<Rightarrow> real list list"
  randint :: "'k \<Rightarrow> nat \<Rightarrow> nat \<Rightarrow> int \<Rightarrow> int \<Rightarrow> int list list"

text \<open>
  \<^verbatim>\<open>jax.random.choice(key, a, shape=(n,), replace=False)\<close> raises a
  \<^verbatim>\<open>ValueError\<close> when asked for more samples than the population holds.
\<close>

definition random_choice :: "'k prng \<Rightarrow> 'k \<Rightarrow> nat \<Rightarrow> nat \<Rightarrow> error + nat list" where
  "random_choice G key a n = (if a < n then Inl ValueError else Inr (choice G key a n))"

definition get_sdgd_idx_set :: "'k prng \<Rightarrow> 'k \<Rightarrow> nat \<Rightarrow> nat \<Rightarrow> error + nat list" where
  "get_sdgd_idx_set G key dimen n_sdgd_dim =
     (if n_sdgd_dim \<noteq> 0 then random_choice G key dimen n_sdgd_dim
      else Inr [0..<dimen])"

text \<open>
  A random array of shape \<open>(m, d)\<close>: JAX refuses a negative dimension, with an error
  whose class is not modelled (\<open>NegativeShape\<close>).
\<close>

definition random_normal :: "'k prng \<Rightarrow> 'k \<Rightarrow> int \<Rightarrow> int \<Rightarrow> error + real list list" where
  "random_normal G key m d =
     (if m < 0 \<or> d < 0 then Inl NegativeShape else Inr (normal G key (nat m) (nat d)))"

definition random_randint ::
  "'k prng \<Rightarrow> 'k \<Rightarrow> int \<Rightarrow> int \<Rightarrow> int \<Rightarrow> int \<Rightarrow> error + int list list" where
  "random_randint G key m d minval maxval =
     (if m < 0 \<or> d < 0 then Inl NegativeShape
      else Inr (randint G key (nat m) (nat d) minval maxval))"

text \<open>
  \<^verbatim>\<open>get_random_vec(key, idx_set, dim, n_sdgd_dim, method, n_hte_vec)\<close>. The sizes
  \<open>n_sdgd_dim\<close> and \<open>n_hte_vec\<close> are Python integers; \<open>d = n_sdgd_dim or dim\<close> is
  \<open>n_sdgd_dim\<close> unless that is zero. In the mode \<open>sdgd\<close> the function mapped over
  the index set is traced whatever the index set holds, and with \<open>dim = 0\<close> its
  \<^verbatim>\<open>jnp.eye(dim)[i]\<close> indexes an axis of length zero: an \<^verbatim>\<open>IndexError\<close>.
\<close>

definition get_random_vec ::
  "'k prng \<Rightarrow> 'k \<Rightarrow> nat list \<Rightarrow> nat \<Rightarrow> int \<Rightarrow> string \<Rightarrow> int \<Rightarrow> error + real list list" where
  "get_random_vec G key idx_set dimen n_sdgd_dim method n_hte_vec =
     (let d = (if n_sdgd_dim \<noteq> 0 then n_sdgd_dim else int dimen) in
      if method = ''normal'' then random_normal G key n_hte_vec d
      else if method = ''unit'' then
        bind (random_randint G key n_hte_vec d 0 2) (\<lambda>bits.
          Inr (map (map (\<lambda>b. 2 * (real_of_int b - 0.5))) bits))
      else if method = ''sdgd'' then
        (if dimen = 0 then Inl IndexError
         else Inr (map (\<lambda>i. map (\<lambda>x. x * real dimen) (eye_row dimen i)) idx_set))
      else Inl ValueError)"

section \<open>The stochastic estimator\<close>

text \<open>
  \<^verbatim>\<open>jet.jet(fun=f_partial, primals=(data,), series=((v, jnp.zeros(dim)),))\<close>
  returns the value and the terms of order one and two of \<open>f\<close> along \<open>v\<close>. The term of
  order two is \<open>c2\<close> times the quadratic form of the second derivative at \<open>v\<close>, where
  \<open>c2\<close> is the normalisation of the series: \<open>1\<close> in JAX, whose term is the second
  directional derivative; \<open>1/2\<close> for a Taylor coefficient.
\<close>

definition quad_form :: "(nat \<Rightarrow> nat \<Rightarrow> real) \<Rightarrow> real list \<Rightarrow> real" where
  "quad_form H v = (\<Sum>i\<leftarrow>[0..<length v]. \<Sum>j\<leftarrow>[0..<length v]. v ! i * H i j * v ! j)"

definition jet ::
  "real \<Rightarrow> 'p wavefn \<Rightarrow> 'p \<Rightarrow> real list \<Rightarrow> real list \<Rightarrow> real \<times> real \<times> real" where
  "jet c2 W params data v =
     (logabs W params data,
      (\<Sum>i\<leftarrow>[0..<length v]. grad W params data ! i * v ! i),
      c2 * quad_form (hess W params data) v)"

text \<open>\<^verbatim>\<open>jnp.mean\<close> of a vector; the mean of no element is a special value.\<close>

definition jnp_mean :: "real list \<Rightarrow> fl" where
  "jnp_mean xs = fdiv (sum_list xs) (real (length xs))"

fun fl_scale :: "real \<Rightarrow> fl \<Rightarrow> fl" where
  "fl_scale c (Fin a) = Fin (c * a)"
| "fl_scale c NonFin = NonFin"

text \<open>The mean of the second-order terms over the probe vectors.\<close>

definition trace_est ::
  "real \<Rightarrow> 'p wavefn \<Rightarrow> 'p \<Rightarrow> real list \<Rightarrow> real list list \<Rightarrow> fl" where
  "trace_est c2 W params data rand_sub_vec =
     (let hvps = map (\<lambda>v. snd (snd (jet c2 W params data v))) rand_sub_vec
      in jnp_mean hvps)"

text \<open>
  The stochastic algorithm, \<^verbatim>\<open>_randomized_lapl_over_f(params, data, rng)\<close>. It calls
  \<^verbatim>\<open>get_sdgd_idx_set(rng, dim)\<close> and \<^verbatim>\<open>get_random_vec(rng, idx_set, dim)\<close> with
  their defaults: sample size \<open>16\<close>, and \<open>n_sdgd_dim = 8\<close>, mode \<open>sdgd\<close>, no
  Hutchinson vector.
\<close>

definition randomized_lapl_over_f ::
  "'k prng \<Rightarrow> real \<Rightarrow> 'p wavefn \<Rightarrow> 'p \<Rightarrow> real list \<Rightarrow> 'k \<Rightarrow> error + fl" where
  "randomized_lapl_over_f G c2 W params data rng =
     (let dimen = length data in
      bind (get_sdgd_idx_set G rng dimen 16) (\<lambda>idx_set.
      bind (get_random_vec G rng idx_set dimen 8 ''sdgd'' 0) (\<lambda>rand_sub_vec.
        let f_x = grad W params data
        in Inr (fl_scale (- 0.5)
                 (trace_est c2 W params data rand_sub_vec + Fin (sum_sq f_x))))))"

section \<open>Selection of the algorithm\<close>

text \<open>
  \<^verbatim>\<open>local_kinetic_energy\<close> returns one of its three nested functions. The choice is
  a value of \<open>lapl_alg\<close>, and \<open>run_alg\<close> is the function so named.
\<close>

datatype lapl_alg = Forward_lapl_over_f | Randomized_lapl_over_f | Lapl_over_f

definition select_alg :: "bool \<Rightarrow> bool \<Rightarrow> lapl_alg" where
  "select_alg use_scan forward_laplacian =
     (if forward_laplacian then Forward_lapl_over_f else Randomized_lapl_over_f)"

fun run_alg ::
  "'k prng \<Rightarrow> real \<Rightarrow> 'p wavefn \<Rightarrow> bool \<Rightarrow> lapl_alg \<Rightarrow> 'p \<Rightarrow> real list \<Rightarrow> 'k \<Rightarrow> error + fl"
  where
  "run_alg G c2 W use_scan Forward_lapl_over_f = forward_lapl_over_f W"
| "run_alg G c2 W use_scan Randomized_lapl_over_f = randomized_lapl_over_f G c2 W"
| "run_alg G c2 W use_scan Lapl_over_f = lapl_over_f W use_scan"

definition local_kinetic_energy ::
  "'k prng \<Rightarrow> real \<Rightarrow> 'p wavefn \<Rightarrow> bool \<Rightarrow> bool \<Rightarrow> 'p \<Rightarrow> real list \<Rightarrow> 'k \<Rightarrow> error + fl"
  where
  "local_kinetic_energy G c2 W use_scan forward_laplacian =
     run_alg G c2 W use_scan (select_alg use_scan forward_laplacian)"

text \<open>The defaults of the factory: \<^verbatim>\<open>use_scan=False, forward_laplacian=True\<close>.\<close>

definition default_use_scan :: bool where
  "default_use_scan = False"

definition default_forward_laplacian :: bool where
  "default_forward_laplacian = True"

section \<open>Arrays with a shape\<close>

text \<open>
  An array of rank two or three is its shape and its entries by index; the entries at
  indices outside the shape are not part of the array and are never read.
\<close>

record 'a arr2 =
  nrow :: nat
  ncol :: nat
  get2 :: "nat \<Rightarrow> nat \<Rightarrow> 'a"

record 'a arr3 =
  dim0 :: nat
  dim1 :: nat
  dim2 :: nat
  get3 :: "nat \<Rightarrow> nat \<Rightarrow> nat \<Rightarrow> 'a"

text \<open>Arrays written as nested lists, the last axis of length \<open>c\<close>.\<close>

definition matrix :: "nat \<Rightarrow> 'a list list \<Rightarrow> 'a arr2" where
  "matrix c rows = \<lparr>nrow = length rows, ncol = c, get2 = (\<lambda>i j. rows ! i ! j)\<rparr>"

definition tensor :: "nat \<Rightarrow> nat \<Rightarrow> 'a list list list \<Rightarrow> 'a arr3" where
  "tensor m c rows =
     \<lparr>dim0 = length rows, dim1 = m, dim2 = c, get3 = (\<lambda>i j k. rows ! i ! j ! k)\<rparr>"

text \<open>\<^verbatim>\<open>a[..., 0]\<close>: the leading channel; the last axis must not be empty.\<close>

definition leading :: "'a arr3 \<Rightarrow> error + 'a arr2" where
  "leading a =
     (if dim2 a = 0 then Inl IndexError
      else Inr \<lparr>nrow = dim0 a, ncol = dim1 a, get2 = (\<lambda>i j. get3 a i j 0)\<rparr>)"

text \<open>\<^verbatim>\<open>v[None, ...]\<close> of shape \<open>(1, n)\<close> and \<^verbatim>\<open>v[..., None]\<close> of shape \<open>(n, 1)\<close>.\<close>

definition row_vec :: "'a list \<Rightarrow> 'a arr2" where
  "row_vec v = \<lparr>nrow = 1, ncol = length v, get2 = (\<lambda>i j. v ! j)\<rparr>"

definition col_vec :: "'a list \<Rightarrow> 'a arr2" where
  "col_vec v = \<lparr>nrow = length v, ncol = 1, get2 = (\<lambda>i j. v ! i)\<rparr>"

text \<open>
  Broadcasting of two axis lengths: equal lengths, or one of them \<open>1\<close>; anything else
  is an error.
\<close>

definition broadcast_axis :: "nat \<Rightarrow> nat \<Rightarrow> error + nat" where
  "broadcast_axis m n =
     (if m = n then Inr m else if m = 1 then Inr n else if n = 1 then Inr m
      else Inl BroadcastError)"

text \<open>
  An elementwise operation on two arrays of rank two, with broadcasting: an axis of
  length \<open>1\<close> is read at index \<open>0\<close> all along the other array's axis. A vector meets
  an array of rank two as \<open>row_vec\<close>.
\<close>

definition broadcast2 :: "('a \<Rightarrow> 'b \<Rightarrow> 'c) \<Rightarrow> 'a arr2 \<Rightarrow> 'b arr2 \<Rightarrow> error + 'c arr2" where
  "broadcast2 f a b =
     bind (broadcast_axis (nrow a) (nrow b)) (\<lambda>r.
     bind (broadcast_axis (ncol a) (ncol b)) (\<lambda>c.
       Inr \<lparr>nrow = r, ncol = c,
            get2 = (\<lambda>i j. f (get2 a (if nrow a = 1 then 0 else i) (if ncol a = 1 then 0 else j))
                             (get2 b (if nrow b = 1 then 0 else i) (if ncol b = 1 then 0 else j)))\<rparr>))"

text \<open>\<^verbatim>\<open>1 / a\<close> for a scalar numerator.\<close>

definition recip :: "real arr2 \<Rightarrow> fl arr2" where
  "recip a = \<lparr>nrow = nrow a, ncol = ncol a, get2 = (\<lambda>i j. fdiv 1 (get2 a i j))\<rparr>"

text \<open>
  \<^verbatim>\<open>jnp.triu(a, k=1)\<close>: the entries on and below the diagonal are replaced by zero
  (a selection, so a special value there is dropped), the entries above are kept.
\<close>

definition triu1 :: "fl arr2 \<Rightarrow> fl arr2" where
  "triu1 a = \<lparr>nrow = nrow a, ncol = ncol a,
              get2 = (\<lambda>i j. if i + 1 \<le> j then get2 a i j else 0)\<rparr>"

text \<open>\<^verbatim>\<open>jnp.sum\<close> of an array of rank two.\<close>

definition jnp_sum :: "fl arr2 \<Rightarrow> fl" where
  "jnp_sum a = (\<Sum>i<nrow a. \<Sum>j<ncol a. get2 a i j)"

section \<open>The potential energy\<close>

definition potential_electron_electron :: "real arr3 \<Rightarrow> error + fl" where
  "potential_electron_electron r_ee =
     bind (leading r_ee) (\<lambda>r. Inr (jnp_sum (triu1 (recip r))))"

definition potential_electron_nuclear :: "real list \<Rightarrow> real arr3 \<Rightarrow> error + fl" where
  "potential_electron_nuclear charges r_ae =
     bind (leading r_ae) (\<lambda>r.
     bind (broadcast2 fdiv (row_vec charges) r) (\<lambda>q.
       Inr (fl_neg (jnp_sum q))))"

text \<open>
  \<^verbatim>\<open>jnp.linalg.norm(atoms[None, ...] - atoms[:, None], axis=-1)\<close>: the shapes
  \<open>(1, natoms, ndim)\<close> and \<open>(natoms, 1, ndim)\<close> always broadcast; entry \<open>(i, j)\<close> is
  the Euclidean norm of \<open>atoms[j] - atoms[i]\<close>.
\<close>

definition pair_norm :: "real arr2 \<Rightarrow> real arr2" where
  "pair_norm atoms =
     \<lparr>nrow = nrow atoms, ncol = nrow atoms,
      get2 = (\<lambda>i j. sqrt (\<Sum>k<ncol atoms. (get2 atoms j k - get2 atoms i k) ^ 2))\<rparr>"

definition potential_nuclear_nuclear :: "real list \<Rightarrow> real arr2 \<Rightarrow> error + fl" where
  "potential_nuclear_nuclear charges atoms =
     (let r_aa = pair_norm atoms in
      bind (broadcast2 (*) (row_vec charges) (col_vec charges)) (\<lambda>cc.
      bind (broadcast2 fdiv cc r_aa) (\<lambda>q.
        Inr (jnp_sum (triu1 q)))))"

definition potential_energy ::
  "real arr3 \<Rightarrow> real arr3 \<Rightarrow> real arr2 \<Rightarrow> real list \<Rightarrow> error + fl" where
  "potential_energy r_ae r_ee atoms charges =
     bind (potential_electron_electron r_ee) (\<lambda>v_ee.
     bind (potential_electron_nuclear charges r_ae) (\<lambda>v_ae.
     bind (potential_nuclear_nuclear charges atoms) (\<lambda>v_aa.
       Inr (v_ee + v_ae + v_aa))))"

section \<open>The local energy\<close>

text \<open>
  \<^verbatim>\<open>networks.construct_input_features(data, atoms)\<close> belongs to another module; the
  distances \<open>r_ae\<close> and \<open>r_ee\<close> it returns are the parameter \<open>features\<close>.
  \<^verbatim>\<open>local_energy\<close> builds the kinetic-energy function and returns the closure
  \<^verbatim>\<open>_e_l(params, key, data)\<close>; it checks nothing when it is called.
\<close>

definition local_energy ::
  "(real list \<Rightarrow> real arr2 \<Rightarrow> error + real arr3 \<times> real arr3) \<Rightarrow>
   'k prng \<Rightarrow> real \<Rightarrow> 'p wavefn \<Rightarrow> real arr2 \<Rightarrow> real list \<Rightarrow> nat list \<Rightarrow> bool \<Rightarrow> bool \<Rightarrow>
   'p \<Rightarrow> 'k \<Rightarrow> real list \<Rightarrow> error + fl" where
  "local_energy features G c2 W atoms charges nspins use_scan forward_laplacian =
     (let ke = local_kinetic_energy G c2 W use_scan forward_laplacian
      in (\<lambda>params key data.
            bind (features data atoms) (\<lambda>(r_ae, r_ee).
            bind (potential_energy r_ae r_ee atoms charges) (\<lambda>potential.
            bind (ke params data key) (\<lambda>kinetic.
              Inr (potential + kinetic))))))"

text \<open>
  Modelled from the spec: \<^verbatim>\<open>construct_input_features\<close> is not part of the module.
  It maps the configuration, three coordinates to an electron, and the atoms to the
  electron-atom and electron-electron distances, each with one channel; a configuration
  whose length is not a multiple of three is a dimension mismatch.
\<close>

definition distance_features :: "real list \<Rightarrow> real arr2 \<Rightarrow> error + real arr3 \<times> real arr3" where
  "distance_features data atoms =
     (let n = length data div 3 in
      if length data mod 3 \<noteq> 0 \<or> ncol atoms \<noteq> 3 then Inl DimensionMismatch
      else
      Inr (\<lparr>dim0 = n, dim1 = nrow atoms, dim2 = 1,
            get3 = (\<lambda>i j c. sqrt (\<Sum>k<3. (data ! (3 * i + k) - get2 atoms j k) ^ 2))\<rparr>,
           \<lparr>dim0 = n, dim1 = n, dim2 = 1,
            get3 = (\<lambda>i j c. sqrt (\<Sum>k<3. (data ! (3 * i + k) - data ! (3 * j + k)) ^ 2))\<rparr>))"

section \<open>Notions of the specification\<close>

text \<open>The Euclidean distance between the atoms \<open>i\<close> and \<open>j\<close>.\<close>

definition euclidean_distance :: "real arr2 \<Rightarrow> nat \<Rightarrow> nat \<Rightarrow> real" where
  "euclidean_distance atoms i j = sqrt (\<Sum>k<ncol atoms. (get2 atoms i k - get2 atoms j k) ^ 2)"

text \<open>
  The distances after a reordering \<open>P\<close> of the electrons: both electron axes of
  \<open>r_ee\<close>, the electron axis of \<open>r_ae\<close>.
\<close>

definition permute_ee :: "(nat \<Rightarrow> nat) \<Rightarrow> 'a arr3 \<Rightarrow> 'a arr3" where
  "permute_ee P r_ee = r_ee\<lparr>get3 := (\<lambda>i j c. get3 r_ee (P i) (P j) c)\<rparr>"

definition permute_ae :: "(nat \<Rightarrow> nat) \<Rightarrow> 'a arr3 \<Rightarrow> 'a arr3" where
  "permute_ae P r_ae = r_ae\<lparr>get3 := (\<lambda>i j c. get3 r_ae (P i) j c)\<rparr>"

section \<open>Uniform choice without replacement\<close>

text \<open>
  The ordered draws of \<open>k\<close> distinct elements of a pool, each as likely as any other
  under a uniform choice without replacement, and their number.
\<close>

fun draws :: "nat list \<Rightarrow> nat \<Rightarrow> nat list list" where
  "draws pool 0 = [[]]"
| "draws pool (Suc k) = concat (map (\<lambda>x. map ((#) x) (draws (remove1 x pool) k)) pool)"

fun num_draws :: "nat \<Rightarrow> nat \<Rightarrow> nat" where
  "num_draws n 0 = 1"
| "num_draws n (Suc k) = n * num_draws (n - 1) k"

text \<open>The expectation of \<open>F\<close> over the draws of \<open>k\<close> of the indices below \<open>dimen\<close>.\<close>

definition expectation :: "nat \<Rightarrow> nat \<Rightarrow> (nat list \<Rightarrow> fl) \<Rightarrow> fl" where
  "expectation dimen k F =
     (case sum_list (map F (draws [0..<dimen] k)) of
        Fin s \<Rightarrow> fdiv s (real (length (draws [0..<dimen] k)))
      | NonFin \<Rightarrow> NonFin)"

text \<open>
  The trace estimate of \<^verbatim>\<open>_randomized_lapl_over_f\<close> as a function of the index set
  drawn: the probe vectors of \<^verbatim>\<open>get_random_vec(rng, idx_set, dim)\<close>, then the mean of
  their second-order terms.
\<close>

definition sdgd_estimate ::
  "'k prng \<Rightarrow> 'k \<Rightarrow> real \<Rightarrow> 'p wavefn \<Rightarrow> 'p \<Rightarrow> real list \<Rightarrow> nat list \<Rightarrow> fl" where
  "sdgd_estimate G key c2 W params data idx_set =
     (case get_random_vec G key idx_set (length data) 8 ''sdgd'' 0 of
        Inl e \<Rightarrow> NonFin
      | Inr rand_sub_vec \<Rightarrow> trace_est c2 W params data rand_sub_vec)"

section \<open>A toy system\<close>

text \<open>
  Concrete inputs on which the theorems below are instantiated: the log-magnitude
  \<open>g(x) = |x|\<^sup>2 / 2\<close>, whose gradient is \<open>x\<close> and whose second derivative is
  the identity, and a sampler that draws \<open>n\<close> consecutive indices starting at the key.
\<close>

definition toy_wavefn :: "unit wavefn" where
  "toy_wavefn =
     \<lparr>logabs = (\<lambda>_ x. sum_sq x / 2),
      grad = (\<lambda>_ x. x),
      hess = (\<lambda>_ x i j. if i = j then 1 else 0),
      fwd_lap = (\<lambda>_ x. real (length x)),
      fwd_grad = (\<lambda>_ x. x)\<rparr>"

definition toy_prng :: "nat prng" where
  "toy_prng =
     \<lparr>choice = (\<lambda>key a n. map (\<lambda>i. (key + i) mod a) [0..<n]),
      normal = (\<lambda>key m d. replicate m (replicate d 0)),
      randint = (\<lambda>key m d lo hi. replicate m (replicate d lo))\<rparr>"

section \<open>Loops\<close>

lemma fori_loop_add:
  "fori_loop lower upper (\<lambda>i val. val + g i) (acc :: real) =
     acc + sum_list (map g [lower..<upper])"
proof (induction lower upper "\<lambda>i (val :: real). val + g i" acc rule: fori_loop.induct)
  case (1 lower upper val)
  show ?case
  proof (cases "lower < upper")
    case True
    then show ?thesis
      using "1" by (subst fori_loop.simps) (simp add: upt_conv_Cons)
  next
    case False
    then show ?thesis
      by (subst fori_loop.simps) simp
  qed
qed

lemma scan_counter:
  "scan (\<lambda>i. (i + 1, g i)) lower n = (lower + n, map g [lower..<lower + n])"
proof (induction n arbitrary: lower)
  case 0
  show ?case by simp
next
  case (Suc n)
  have "[lower..<lower + Suc n] = lower # [Suc lower..<Suc lower + n]"
    by (simp add: upt_conv_Cons)
  then show ?case
    using Suc [of "Suc lower"] by simp
qed

text \<open>
  C4. The exact loop-based algorithm returns the same value under both iteration
  disciplines: the \<^verbatim>\<open>fori_loop\<close> that carries a running sum (\<open>use_scan = False\<close>)
  and the \<^verbatim>\<open>scan\<close> that emits the diagonal entries, summed afterwards
  (\<open>use_scan = True\<close>).
\<close>

theorem lapl_over_f_use_scan:
  "lapl_over_f W True params data rng = lapl_over_f W False params data rng"
proof -
  define n where "n = length data"
  define d where "d = (\<lambda>i. snd (linearize_grad W params data) (eye_row n i) ! i)"
  have seq: "fori_loop 0 n (\<lambda>i val. val + d i) 0 = sum_list (map d [0..<n])"
    by (simp add: fori_loop_add)
  have red: "scan (\<lambda>i. (i + 1, d i)) 0 n = (n, map d [0..<n])"
    using scan_counter [of d 0 n] by simp
  show ?thesis
    unfolding lapl_over_f_def Let_def n_def [symmetric]
    by (simp only: case_prod_beta seq [unfolded d_def] red [unfolded d_def]
        if_True if_False snd_conv)
qed

text \<open>
  C6. The random token does not influence the exact loop-based algorithm nor the
  forward-propagated one: each returns equal results for any two tokens.
\<close>

theorem exact_and_forward_ignore_rng:
  "lapl_over_f W use_scan params data rng1 = lapl_over_f W use_scan params data rng2 \<and>
   forward_lapl_over_f W params data rng1 = forward_lapl_over_f W params data rng2"
  by (simp add: lapl_over_f_def forward_lapl_over_f_def)

section \<open>Selection of the algorithm: results\<close>

text \<open>
  C2, as stated, fails: no setting of the two construction flags makes
  \<^verbatim>\<open>local_kinetic_energy\<close> return the exact loop-based algorithm.
\<close>

theorem select_alg_exact_counterexample:
  "select_alg False False \<noteq> Lapl_over_f \<and> select_alg False True \<noteq> Lapl_over_f \<and>
   select_alg True False \<noteq> Lapl_over_f \<and> select_alg True True \<noteq> Lapl_over_f"
  by (simp add: select_alg_def)

text \<open>
  C2, amended. The factory selects between two algorithms, fixed at construction: the
  forward-propagated one when \<open>forward_laplacian\<close> is set, which is the default, and the
  stochastic one otherwise. The exact loop-based algorithm is returned for no setting of
  the flags, and \<open>use_scan\<close> has no part in the selection.
\<close>

theorem local_kinetic_energy_selection:
  "local_kinetic_energy G c2 W use_scan True = forward_lapl_over_f W \<and>
   local_kinetic_energy G c2 W use_scan False = randomized_lapl_over_f G c2 W \<and>
   select_alg use_scan forward_laplacian \<noteq> Lapl_over_f \<and>
   select_alg use_scan default_forward_laplacian = Forward_lapl_over_f \<and>
   select_alg True forward_laplacian = select_alg False forward_laplacian"
  by (simp add: local_kinetic_energy_def select_alg_def default_forward_laplacian_def)

section \<open>The stochastic estimator and its token\<close>

lemma toy_choice: "choice toy_prng key a n = map (\<lambda>i. (key + i) mod a) [0..<n]"
  by (simp add: toy_prng_def)




section \<open>The errors of the probe-vector builder\<close>

text \<open>
  C8, as stated, fails: \<open>sdgd\<close> is a recognised mode, and with \<open>dim = 0\<close>
  \<^verbatim>\<open>get_random_vec\<close> raises an \<^verbatim>\<open>IndexError\<close> instead of returning an array.
\<close>

theorem get_random_vec_sdgd_counterexample:
  "get_random_vec toy_prng (0 :: nat) [] 0 8 ''sdgd'' 0 = Inl IndexError"
  by (simp add: get_random_vec_def)

text \<open>
  C8, amended. For sizes that are not negative, \<^verbatim>\<open>get_random_vec\<close> raises a
  \<^verbatim>\<open>ValueError\<close> exactly when the mode is none of \<open>normal\<close>, \<open>unit\<close> and
  \<open>sdgd\<close>, with no fallback to a default mode; it raises an \<^verbatim>\<open>IndexError\<close>
  exactly when the mode is \<open>sdgd\<close> and \<open>dim = 0\<close>; in every other case it returns
  an array of probe vectors.
\<close>

theorem get_random_vec_error:
  assumes "0 \<le> n_hte_vec" and "0 \<le> n_sdgd_dim"
  shows
    "(get_random_vec G key idx_set dimen n_sdgd_dim method n_hte_vec = Inl ValueError) =
       (method \<noteq> ''normal'' \<and> method \<noteq> ''unit'' \<and> method \<noteq> ''sdgd'') \<and>
     (get_random_vec G key idx_set dimen n_sdgd_dim method n_hte_vec = Inl IndexError) =
       (method = ''sdgd'' \<and> dimen = 0) \<and>
     (\<exists>v. get_random_vec G key idx_set dimen n_sdgd_dim method n_hte_vec = Inr v) =
       (method = ''normal'' \<or> method = ''unit'' \<or> (method = ''sdgd'' \<and> 0 < dimen))"
  using assms
  by (auto simp add: get_random_vec_def random_normal_def random_randint_def Let_def)

theorem get_random_vec_error_witness:
  "get_random_vec toy_prng (0 :: nat) [0, 2] 3 8 ''hutchinson'' 0 = Inl ValueError \<and>
   (\<exists>v. get_random_vec toy_prng (0 :: nat) [0, 2] 3 8 ''sdgd'' 0 = Inr v) \<and>
   (\<exists>v. get_random_vec toy_prng (0 :: nat) [0, 2] 3 8 ''unit'' 2 = Inr v)"
proof -
  have "(0 :: int) \<le> 0" and "(0 :: int) \<le> 2" and "(0 :: int) \<le> 8"
    by simp_all
  then show ?thesis
    using get_random_vec_error [of 0 8 toy_prng 0 "[0, 2]" 3 "''hutchinson''"]
      get_random_vec_error [of 0 8 toy_prng 0 "[0, 2]" 3 "''sdgd''"]
      get_random_vec_error [of 2 8 toy_prng 0 "[0, 2]" 3 "''unit''"]
    by simp
qed

section \<open>The potential energy as sums over pairs\<close>

lemma sum_Fin: "(\<Sum>i\<in>A. Fin (f i)) = Fin (\<Sum>i\<in>A. f i)"
  by (induction A rule: infinite_finite_induct) (simp_all add: zero_fl_def)

lemma triu1_row:
  "(\<Sum>j<m. if i < j then g j else 0) = (\<Sum>j\<in>{i<..<m::nat}. g j)"
proof -
  have "(\<Sum>j<m. if i < j then g j else 0) = (\<Sum>j\<in>{j \<in> {..<m}. i < j}. g j)"
    by (rule sum.inter_filter [symmetric]) simp
  moreover have "{j \<in> {..<m}. i < j} = {i<..<m}"
    by auto
  ultimately show ?thesis
    by simp
qed

lemma jnp_sum_triu1:
  "jnp_sum (triu1 a) = (\<Sum>i<nrow a. \<Sum>j\<in>{i<..<ncol a}. get2 a i j)"
  by (simp add: jnp_sum_def triu1_def triu1_row Suc_le_eq)

lemma potential_electron_electron_sum:
  assumes "0 < dim2 r_ee"
  shows "potential_electron_electron r_ee =
    Inr (\<Sum>i<dim0 r_ee. \<Sum>j\<in>{i<..<dim1 r_ee}. fdiv 1 (get3 r_ee i j 0))"
  using assms
  by (simp add: potential_electron_electron_def leading_def jnp_sum_triu1 recip_def)

lemma broadcast_axis_simps [simp]:
  "broadcast_axis n n = Inr n"
  "broadcast_axis (Suc 0) n = Inr n"
  "broadcast_axis n (Suc 0) = Inr n"
  by (simp_all add: broadcast_axis_def)

lemma potential_electron_nuclear_sum:
  assumes "0 < dim2 r_ae" and "length charges = dim1 r_ae"
  shows "potential_electron_nuclear charges r_ae =
    Inr (fl_neg (\<Sum>i<dim0 r_ae. \<Sum>j<dim1 r_ae. fdiv (charges ! j) (get3 r_ae i j 0)))"
proof -
  have "(\<Sum>i<dim0 r_ae. \<Sum>j<dim1 r_ae.
           fdiv (charges ! (if dim1 r_ae = 1 then 0 else j))
             (get3 r_ae (if dim0 r_ae = 1 then 0 else i) (if dim1 r_ae = 1 then 0 else j) 0)) =
        (\<Sum>i<dim0 r_ae. \<Sum>j<dim1 r_ae. fdiv (charges ! j) (get3 r_ae i j 0))"
    by (intro sum.cong refl) auto
  then show ?thesis
    using assms
    by (simp add: potential_electron_nuclear_def leading_def broadcast2_def row_vec_def
        jnp_sum_def)
qed

lemma potential_nuclear_nuclear_sum:
  assumes "length charges = nrow atoms"
  shows "potential_nuclear_nuclear charges atoms =
    Inr (\<Sum>i<nrow atoms. \<Sum>j\<in>{i<..<nrow atoms}.
          fdiv (charges ! j * charges ! i) (get2 (pair_norm atoms) i j))"
proof -
  define n where "n = nrow atoms"
  have "(\<Sum>i<n. \<Sum>j\<in>{i<..<n}.
           fdiv (charges ! (if n = 1 then 0 else j) * charges ! (if n = 1 then 0 else i))
             (get2 (pair_norm atoms) i j)) =
        (\<Sum>i<n. \<Sum>j\<in>{i<..<n}. fdiv (charges ! j * charges ! i) (get2 (pair_norm atoms) i j))"
    by (intro sum.cong refl) auto
  then show ?thesis
    using assms
    by (simp add: potential_nuclear_nuclear_def Let_def broadcast2_def row_vec_def col_vec_def
        jnp_sum_triu1 pair_norm_def n_def)
qed

lemma sum2_Fin:
  assumes "\<And>i j. i \<in> A \<Longrightarrow> j \<in> B i \<Longrightarrow> g i j = Fin (f i j)"
  shows "(\<Sum>i\<in>A. \<Sum>j\<in>B i. g i j) = Fin (\<Sum>i\<in>A. \<Sum>j\<in>B i. f i j)"
proof -
  have "(\<Sum>i\<in>A. \<Sum>j\<in>B i. g i j) = (\<Sum>i\<in>A. \<Sum>j\<in>B i. Fin (f i j))"
    using assms by (intro sum.cong refl) simp
  then show ?thesis
    by (simp add: sum_Fin)
qed

lemma euclidean_distance_pos:
  assumes "k < ncol atoms" and "get2 atoms i k \<noteq> get2 atoms j k"
  shows "0 < euclidean_distance atoms i j"
proof -
  have "0 < (get2 atoms i k - get2 atoms j k) ^ 2"
    using assms by simp
  also have "\<dots> \<le> (\<Sum>k<ncol atoms. (get2 atoms i k - get2 atoms j k) ^ 2)"
    using assms(1) by (intro member_le_sum) auto
  finally show ?thesis
    by (simp add: euclidean_distance_def)
qed

lemma pair_norm_euclidean: "get2 (pair_norm atoms) i j = euclidean_distance atoms j i"
  by (simp add: pair_norm_def euclidean_distance_def)

text \<open>Sums and quantifiers over the first two or three indices, written out.\<close>

lemma all_less_2: "(\<forall>i<2::nat. Q i) = (Q 0 \<and> Q 1)"
  by (simp add: numeral_2_eq_2 All_less_Suc conj_commute)

lemma ex_less_3: "(\<exists>k<3::nat. Q k) = (Q 0 \<or> Q 1 \<or> Q 2)"
  by (simp add: numeral_3_eq_3 numeral_2_eq_2 Ex_less_Suc disj_ac)

lemma sum_less_2: "(\<Sum>i<2::nat. f i) = f 0 + (f 1 :: 'a :: comm_monoid_add)"
  by (simp add: numeral_2_eq_2)

lemma sum_less_3: "(\<Sum>i<3::nat. f i) = f 0 + f 1 + (f 2 :: 'a :: comm_monoid_add)"
  by (simp add: numeral_3_eq_3 numeral_2_eq_2)

lemma sum_between_2:
  "(\<Sum>j\<in>{0<..<2::nat}. f j) = (f 1 :: 'a :: comm_monoid_add)"
  "(\<Sum>j\<in>{1<..<2::nat}. f j) = (0 :: 'a :: comm_monoid_add)"
  "(\<Sum>j\<in>{Suc 0<..<2::nat}. f j) = (0 :: 'a :: comm_monoid_add)"
  by (simp_all add: atLeastSucLessThan_greaterThanLessThan [symmetric] numeral_2_eq_2)

text \<open>
  C3. With strictly positive electron-atom distances, strictly positive off-diagonal
  electron-electron distances in the leading channel, pairwise distinct atom positions
  and one charge per atom, \<^verbatim>\<open>potential_energy\<close> returns the sum over the electron
  pairs \<open>i < j\<close> of \<open>1 / r_ee[i, j, 0]\<close>, minus the sum over all electrons \<open>i\<close> and
  atoms \<open>j\<close> of \<open>charges[j] / r_ae[i, j, 0]\<close>, plus the sum over the atom pairs
  \<open>i < j\<close> of \<open>charges[i] * charges[j]\<close> over the Euclidean distance of the two
  atoms: each pair once, and no pair of a particle with itself.
\<close>

theorem potential_energy_sum:
  assumes "dim0 r_ee = n" and "dim1 r_ee = n" and "0 < dim2 r_ee"
    and "dim0 r_ae = n" and "dim1 r_ae = m" and "0 < dim2 r_ae"
    and "nrow atoms = m" and "length charges = m"
    and "\<forall>i<n. \<forall>j<m. 0 < get3 r_ae i j 0"
    and "\<forall>i<n. \<forall>j<n. i \<noteq> j \<longrightarrow> 0 < get3 r_ee i j 0"
    and "\<forall>i<m. \<forall>j<m. i \<noteq> j \<longrightarrow> (\<exists>k<ncol atoms. get2 atoms i k \<noteq> get2 atoms j k)"
  shows "potential_energy r_ae r_ee atoms charges =
    Inr (Fin ((\<Sum>i<n. \<Sum>j\<in>{i<..<n}. 1 / get3 r_ee i j 0)
            - (\<Sum>i<n. \<Sum>j<m. charges ! j / get3 r_ae i j 0)
            + (\<Sum>i<m. \<Sum>j\<in>{i<..<m}. charges ! i * charges ! j / euclidean_distance atoms i j)))"
proof -
  have ee: "potential_electron_electron r_ee = Inr (Fin (\<Sum>i<n. \<Sum>j\<in>{i<..<n}. 1 / get3 r_ee i j 0))"
  proof -
    have "(\<Sum>i<n. \<Sum>j\<in>{i<..<n}. fdiv 1 (get3 r_ee i j 0)) =
          Fin (\<Sum>i<n. \<Sum>j\<in>{i<..<n}. 1 / get3 r_ee i j 0)"
    proof (rule sum2_Fin)
      fix i j assume "i \<in> {..<n}" and "j \<in> {i<..<n}"
      then have "i < n" and "j < n" and "i \<noteq> j"
        by auto
      then have "0 < get3 r_ee i j 0"
        using assms(10) by blast
      then show "fdiv 1 (get3 r_ee i j 0) = Fin (1 / get3 r_ee i j 0)"
        by (simp add: fdiv_def)
    qed
    then show ?thesis
      using assms(1-3) by (simp add: potential_electron_electron_sum)
  qed
  have ae: "potential_electron_nuclear charges r_ae =
      Inr (Fin (- (\<Sum>i<n. \<Sum>j<m. charges ! j / get3 r_ae i j 0)))"
  proof -
    have "(\<Sum>i<n. \<Sum>j<m. fdiv (charges ! j) (get3 r_ae i j 0)) =
          Fin (\<Sum>i<n. \<Sum>j<m. charges ! j / get3 r_ae i j 0)"
    proof (rule sum2_Fin)
      fix i j assume "i \<in> {..<n}" and "j \<in> {..<m}"
      then have "i < n" and "j < m"
        by auto
      then have "0 < get3 r_ae i j 0"
        using assms(9) by blast
      then show "fdiv (charges ! j) (get3 r_ae i j 0) = Fin (charges ! j / get3 r_ae i j 0)"
        by (simp add: fdiv_def)
    qed
    then show ?thesis
      using assms(4-6,8) by (simp add: potential_electron_nuclear_sum)
  qed
  have aa: "potential_nuclear_nuclear charges atoms =
      Inr (Fin (\<Sum>i<m. \<Sum>j\<in>{i<..<m}. charges ! i * charges ! j / euclidean_distance atoms i j))"
  proof -
    have "(\<Sum>i<m. \<Sum>j\<in>{i<..<m}. fdiv (charges ! j * charges ! i) (get2 (pair_norm atoms) i j)) =
          Fin (\<Sum>i<m. \<Sum>j\<in>{i<..<m}. charges ! i * charges ! j / euclidean_distance atoms i j)"
    proof (rule sum2_Fin)
      fix i j assume "i \<in> {..<m}" and "j \<in> {i<..<m}"
      then have "j < m" and "i < m" and "j \<noteq> i"
        by auto
      then have "\<exists>k<ncol atoms. get2 atoms j k \<noteq> get2 atoms i k"
        using assms(11) by blast
      then obtain k where "k < ncol atoms" and "get2 atoms j k \<noteq> get2 atoms i k"
        by blast
      then have "0 < euclidean_distance atoms j i"
        by (rule euclidean_distance_pos)
      moreover have "euclidean_distance atoms j i = euclidean_distance atoms i j"
        by (simp add: euclidean_distance_def power2_commute)
      ultimately have "get2 (pair_norm atoms) i j = euclidean_distance atoms i j"
        and "euclidean_distance atoms i j \<noteq> 0"
        by (simp_all add: pair_norm_euclidean)
      then show "fdiv (charges ! j * charges ! i) (get2 (pair_norm atoms) i j) =
          Fin (charges ! i * charges ! j / euclidean_distance atoms i j)"
        by (simp add: fdiv_def mult.commute [of "charges ! j"])
    qed
    then show ?thesis
      using assms(7,8) by (simp add: potential_nuclear_nuclear_sum)
  qed
  show ?thesis
    unfolding potential_energy_def ee ae aa by simp
qed

theorem potential_energy_sum_witness:
  "potential_energy
     (tensor 2 1 [[[1], [2]], [[2], [1]]])
     (tensor 2 1 [[[0], [2]], [[2], [0]]])
     (matrix 3 [[0, 0, 0], [1, 0, 0]])
     [1, 2] = Inr (Fin (- 2))"
proof -
  let ?r_ae = "tensor 2 1 [[[1], [2]], [[2], [1::real]]]"
  let ?r_ee = "tensor 2 1 [[[0], [2]], [[2], [0::real]]]"
  let ?atoms = "matrix 3 [[0, 0, 0], [1, 0, 0::real]]"
  have shape: "dim0 ?r_ee = 2" "dim1 ?r_ee = 2" "0 < dim2 ?r_ee"
    "dim0 ?r_ae = 2" "dim1 ?r_ae = 2" "0 < dim2 ?r_ae"
    "nrow ?atoms = 2" "length [1, 2::real] = 2"
    by (simp_all add: tensor_def matrix_def)
  have ae: "\<forall>i<2. \<forall>j<2. 0 < get3 ?r_ae i j 0"
    by (simp add: all_less_2 tensor_def)
  have ee: "\<forall>i<2. \<forall>j<2. i \<noteq> j \<longrightarrow> 0 < get3 ?r_ee i j 0"
    by (simp add: all_less_2 tensor_def)
  have aa: "\<forall>i<2. \<forall>j<2. i \<noteq> j \<longrightarrow> (\<exists>k<ncol ?atoms. get2 ?atoms i k \<noteq> get2 ?atoms j k)"
    by (simp add: all_less_2 matrix_def ex_less_3)
  have dist: "euclidean_distance ?atoms 0 (Suc 0) = 1"
    by (simp add: euclidean_distance_def matrix_def sum_less_3)
  show ?thesis
    unfolding potential_energy_sum [OF shape ae ee aa]
    by (simp add: sum_less_2 sum_between_2 dist tensor_def)
qed

section \<open>What the electron-electron term reads\<close>

text \<open>
  C10. \<^verbatim>\<open>potential_electron_electron\<close> depends only on the entries of the leading
  channel strictly above the diagonal: two tensors of the same shape that agree on the
  entries \<open>r_ee[i, j, 0]\<close> with \<open>i < j\<close> give equal results, whatever they hold on and
  below the diagonal. In particular the zero distances on the diagonal contribute no
  singular term: when the entries above the diagonal are not zero, the result is the
  finite sum of their reciprocals.
\<close>

theorem potential_electron_electron_upper:
  assumes "dim0 r = dim0 r'" and "dim1 r = dim1 r'" and "0 < dim2 r" and "0 < dim2 r'"
    and "\<forall>i<dim0 r. \<forall>j<dim1 r. i < j \<longrightarrow> get3 r i j 0 = get3 r' i j 0"
  shows "potential_electron_electron r = potential_electron_electron r' \<and>
    ((\<forall>i<dim0 r. \<forall>j<dim1 r. i < j \<longrightarrow> get3 r i j 0 \<noteq> 0) \<longrightarrow>
      potential_electron_electron r =
        Inr (Fin (\<Sum>i<dim0 r. \<Sum>j\<in>{i<..<dim1 r}. 1 / get3 r i j 0)))"
proof
  have "(\<Sum>i<dim0 r. \<Sum>j\<in>{i<..<dim1 r}. fdiv 1 (get3 r i j 0)) =
        (\<Sum>i<dim0 r. \<Sum>j\<in>{i<..<dim1 r}. fdiv 1 (get3 r' i j 0))"
  proof (intro sum.cong refl)
    fix i j assume "i \<in> {..<dim0 r}" and "j \<in> {i<..<dim1 r}"
    then have "i < dim0 r" and "j < dim1 r" and "i < j"
      by simp_all
    then have "get3 r i j 0 = get3 r' i j 0"
      using assms(5) by blast
    then show "fdiv 1 (get3 r i j 0) = fdiv 1 (get3 r' i j 0)"
      by simp
  qed
  then show "potential_electron_electron r = potential_electron_electron r'"
    using assms(1-4) by (simp add: potential_electron_electron_sum)
next
  show "(\<forall>i<dim0 r. \<forall>j<dim1 r. i < j \<longrightarrow> get3 r i j 0 \<noteq> 0) \<longrightarrow>
      potential_electron_electron r =
        Inr (Fin (\<Sum>i<dim0 r. \<Sum>j\<in>{i<..<dim1 r}. 1 / get3 r i j 0))"
  proof
    assume nz: "\<forall>i<dim0 r. \<forall>j<dim1 r. i < j \<longrightarrow> get3 r i j 0 \<noteq> 0"
    have "(\<Sum>i<dim0 r. \<Sum>j\<in>{i<..<dim1 r}. fdiv 1 (get3 r i j 0)) =
          Fin (\<Sum>i<dim0 r. \<Sum>j\<in>{i<..<dim1 r}. 1 / get3 r i j 0)"
    proof (rule sum2_Fin)
      fix i j assume "i \<in> {..<dim0 r}" and "j \<in> {i<..<dim1 r}"
      then have "i < dim0 r" and "j < dim1 r" and "i < j"
        by simp_all
      then have "get3 r i j 0 \<noteq> 0"
        using nz by blast
      then show "fdiv 1 (get3 r i j 0) = Fin (1 / get3 r i j 0)"
        by (simp add: fdiv_def)
    qed
    then show "potential_electron_electron r =
        Inr (Fin (\<Sum>i<dim0 r. \<Sum>j\<in>{i<..<dim1 r}. 1 / get3 r i j 0))"
      using assms(3) by (simp add: potential_electron_electron_sum)
  qed
qed

theorem potential_electron_electron_upper_witness:
  "potential_electron_electron (tensor 2 1 [[[0], [2]], [[2], [0]]]) =
   potential_electron_electron (tensor 2 2 [[[7, 1], [2, 1]], [[0, 1], [5, 1]]]) \<and>
   potential_electron_electron (tensor 2 1 [[[0], [2]], [[2], [0]]]) = Inr (Fin (1 / 2))"
proof -
  let ?r = "tensor 2 1 [[[0], [2]], [[2], [0::real]]]"
  let ?r' = "tensor 2 2 [[[7, 1], [2, 1]], [[0, 1], [5, 1::real]]]"
  have shape: "dim0 ?r = dim0 ?r'" "dim1 ?r = dim1 ?r'" "0 < dim2 ?r" "0 < dim2 ?r'"
    by (simp_all add: tensor_def)
  have dims: "dim0 ?r = 2" "dim1 ?r = 2"
    by (simp_all add: tensor_def)
  have agree: "\<forall>i<dim0 ?r. \<forall>j<dim1 ?r. i < j \<longrightarrow> get3 ?r i j 0 = get3 ?r' i j 0"
    unfolding dims by (simp add: tensor_def all_less_2)
  have nz: "\<forall>i<dim0 ?r. \<forall>j<dim1 ?r. i < j \<longrightarrow> get3 ?r i j 0 \<noteq> 0"
    unfolding dims by (simp add: tensor_def all_less_2)
  have val: "(\<Sum>i<dim0 ?r. \<Sum>j\<in>{i<..<dim1 ?r}. 1 / get3 ?r i j 0) = 1 / 2"
    unfolding dims by (simp add: tensor_def sum_less_2 sum_between_2)
  note upper = potential_electron_electron_upper [OF shape agree]
  from upper have same: "potential_electron_electron ?r = potential_electron_electron ?r'"
    by (rule conjunct1)
  from upper nz have "potential_electron_electron ?r =
      Inr (Fin (\<Sum>i<dim0 ?r. \<Sum>j\<in>{i<..<dim1 ?r}. 1 / get3 ?r i j 0))"
    by blast
  then have "potential_electron_electron ?r = Inr (Fin (1 / 2))"
    by (simp only: val)
  with same show ?thesis
    by (rule conjI)
qed

section \<open>Charges and atoms of different lengths\<close>

lemma broadcast_axis_Inl:
  "(broadcast_axis m n = Inl e) = (e = BroadcastError \<and> m \<noteq> n \<and> m \<noteq> 1 \<and> n \<noteq> 1)"
  by (auto simp add: broadcast_axis_def)

lemma broadcast_axis_Inr:
  "(\<exists>k. broadcast_axis m n = Inr k) = (m = n \<or> m = 1 \<or> n = 1)"
  by (auto simp add: broadcast_axis_def)

lemma potential_electron_nuclear_cases:
  assumes "0 < dim2 r_ae"
  shows "potential_electron_nuclear charges r_ae =
    (case broadcast_axis (length charges) (dim1 r_ae) of
       Inl e \<Rightarrow> Inl e
     | Inr c \<Rightarrow>
         Inr (fl_neg (\<Sum>i<dim0 r_ae. \<Sum>j<c.
           fdiv (charges ! (if length charges = 1 then 0 else j))
             (get3 r_ae i (if dim1 r_ae = 1 then 0 else j) 0))))"
proof (cases "broadcast_axis (length charges) (dim1 r_ae)")
  case (Inl e)
  then show ?thesis
    using assms
    by (simp add: potential_electron_nuclear_def leading_def broadcast2_def row_vec_def)
next
  case (Inr c)
  have "(\<Sum>i<dim0 r_ae. \<Sum>j<c.
           fdiv (charges ! (if length charges = 1 then 0 else j))
             (get3 r_ae (if dim0 r_ae = 1 then 0 else i) (if dim1 r_ae = 1 then 0 else j) 0)) =
        (\<Sum>i<dim0 r_ae. \<Sum>j<c.
           fdiv (charges ! (if length charges = 1 then 0 else j))
             (get3 r_ae i (if dim1 r_ae = 1 then 0 else j) 0))"
    by (intro sum.cong refl) auto
  then show ?thesis
    using assms Inr
    by (simp add: potential_electron_nuclear_def leading_def broadcast2_def row_vec_def
        jnp_sum_def)
qed

lemma potential_nuclear_nuclear_Inl:
  "(potential_nuclear_nuclear charges atoms = Inl e) =
     (broadcast_axis (length charges) (nrow atoms) = Inl e)"
  by (cases "broadcast_axis (length charges) (nrow atoms)")
    (simp_all add: potential_nuclear_nuclear_def Let_def broadcast2_def row_vec_def col_vec_def
      pair_norm_def)

lemma potential_energy_Inl:
  assumes "0 < dim2 r_ae" and "0 < dim2 r_ee" and "dim1 r_ae = nrow atoms"
  shows "(potential_energy r_ae r_ee atoms charges = Inl e) =
     (broadcast_axis (length charges) (nrow atoms) = Inl e)"
proof (cases "broadcast_axis (length charges) (nrow atoms)")
  case (Inl e')
  then show ?thesis
    using assms
    by (simp add: potential_energy_def potential_electron_electron_sum
        potential_electron_nuclear_cases)
next
  case (Inr k)
  then have "potential_nuclear_nuclear charges atoms \<noteq> Inl e"
    by (simp add: potential_nuclear_nuclear_Inl)
  then obtain v where "potential_nuclear_nuclear charges atoms = Inr v"
    using potential_nuclear_nuclear_Inl [of charges atoms] Inr
    by (cases "potential_nuclear_nuclear charges atoms") auto
  then show ?thesis
    using assms Inr
    by (simp add: potential_energy_def potential_electron_electron_sum
        potential_electron_nuclear_cases)
qed

lemma local_kinetic_energy_Inl:
  "local_kinetic_energy G c2 W use_scan forward_laplacian params data key = Inl e \<Longrightarrow>
   e = ValueError"
  by (cases forward_laplacian)
    (auto simp add: local_kinetic_energy_def select_alg_def forward_lapl_over_f_def
      randomized_lapl_over_f_def get_sdgd_idx_set_def random_choice_def get_random_vec_def
      Let_def split: if_splits)

lemma potential_nuclear_nuclear_cases:
  "potential_nuclear_nuclear charges atoms =
    (case broadcast_axis (length charges) (nrow atoms) of
       Inl e \<Rightarrow> Inl e
     | Inr k \<Rightarrow>
         Inr (\<Sum>i<k. \<Sum>j\<in>{i<..<k}.
           fdiv (charges ! (if length charges = 1 then 0 else j) *
                 charges ! (if length charges = 1 then 0 else i))
             (get2 (pair_norm atoms) (if nrow atoms = 1 then 0 else i)
                (if nrow atoms = 1 then 0 else j))))"
  by (cases "broadcast_axis (length charges) (nrow atoms)")
    (simp_all add: potential_nuclear_nuclear_def Let_def broadcast2_def row_vec_def col_vec_def
      jnp_sum_triu1 pair_norm_def cong: if_cong)

lemma toy_features:
  "distance_features [1, 0, 0] (matrix 3 [[0, 0, 0], [2, 0, 0]]) =
     Inr (\<lparr>dim0 = 1, dim1 = 2, dim2 = 1,
           get3 = (\<lambda>i j c. sqrt (\<Sum>k<3. ([1, 0, 0] ! (3 * i + k) -
                     get2 (matrix 3 [[0, 0, 0], [2, 0, 0]]) j k) ^ 2))\<rparr>,
          \<lparr>dim0 = 1, dim1 = 1, dim2 = 1,
           get3 = (\<lambda>i j c. sqrt (\<Sum>k<3. ([1, 0, 0] ! (3 * i + k) -
                     [1, 0, 0] ! (3 * j + k)) ^ 2))\<rparr>)"
  by (simp add: distance_features_def matrix_def)

text \<open>
  C9, as stated, fails: with two atoms and a single charge the evaluator is built and
  its first call returns a value; the charge is broadcast over both atoms.
\<close>

theorem local_energy_broadcast_counterexample:
  "local_energy distance_features toy_prng 1 toy_wavefn (matrix 3 [[0, 0, 0], [2, 0, 0]])
     [2] [1] False True () (0 :: nat) [1, 0, 0] = Inr (Fin (- 4))"
proof -
  let ?atoms = "matrix 3 [[0, 0, 0], [2, 0, 0 :: real]]"
  let ?r_ae = "\<lparr>dim0 = 1, dim1 = 2, dim2 = 1,
           get3 = (\<lambda>i j c. sqrt (\<Sum>k<3. ([1, 0, 0 :: real] ! (3 * i + k) -
                     get2 ?atoms j k) ^ 2))\<rparr>"
  let ?r_ee = "\<lparr>dim0 = 1, dim1 = 1, dim2 = 1,
           get3 = (\<lambda>i j c. sqrt (\<Sum>k<3. ([1, 0, 0 :: real] ! (3 * i + k) -
                     [1, 0, 0] ! (3 * j + k)) ^ 2))\<rparr>"
  have ee: "potential_electron_electron ?r_ee = Inr (Fin 0)"
    by (simp add: potential_electron_electron_sum zero_fl_def
        atLeastSucLessThan_greaterThanLessThan [symmetric])
  have ae: "potential_electron_nuclear [2] ?r_ae = Inr (Fin (- 4))"
    by (simp add: potential_electron_nuclear_cases sum_less_2 sum_less_3 matrix_def fdiv_def)
  have aa: "potential_nuclear_nuclear [2] ?atoms = Inr (Fin 2)"
    by (simp add: potential_nuclear_nuclear_cases sum_less_2 sum_less_3 matrix_def
        fdiv_def pair_norm_def atLeastSucLessThan_greaterThanLessThan [symmetric])
  have pot: "potential_energy ?r_ae ?r_ee ?atoms [2] = Inr (Fin (- 2))"
    unfolding potential_energy_def ee ae aa by simp
  have kin: "local_kinetic_energy toy_prng 1 toy_wavefn False True () [1, 0, 0] (0 :: nat) =
      Inr (Fin (- 2))"
    by (simp add: local_kinetic_energy_def select_alg_def forward_lapl_over_f_def toy_wavefn_def
        sum_sq_def)
  show ?thesis
    unfolding local_energy_def Let_def toy_features bind.simps prod.case pot kin by simp
qed

text \<open>
  C9, amended. Building the evaluator checks nothing. At its first use, with distances
  computed for the atoms given, the call raises a broadcasting error exactly when the
  numbers of charges and of atoms differ and neither is one; when they differ and one
  of them is one, the potential energy is computed with that array broadcast, and no
  error reports the mismatch.
\<close>

theorem local_energy_length_mismatch:
  assumes "features data atoms = Inr (r_ae, r_ee)"
    and "0 < dim2 r_ae" and "0 < dim2 r_ee" and "dim1 r_ae = nrow atoms"
  shows "(local_energy features G c2 W atoms charges nspins use_scan forward_laplacian
            params key data = Inl BroadcastError) =
         (length charges \<noteq> nrow atoms \<and> length charges \<noteq> 1 \<and> nrow atoms \<noteq> 1) \<and>
         (\<exists>v. potential_energy r_ae r_ee atoms charges = Inr v) =
         (length charges = nrow atoms \<or> length charges = 1 \<or> nrow atoms = 1)"
proof -
  note pot = potential_energy_Inl [OF assms(2-4), of charges]
  have returns: "(\<exists>v. potential_energy r_ae r_ee atoms charges = Inr v) =
      (length charges = nrow atoms \<or> length charges = 1 \<or> nrow atoms = 1)"
  proof (cases "potential_energy r_ae r_ee atoms charges")
    case (Inl e)
    then show ?thesis
      using pot [of e] by (auto simp add: broadcast_axis_Inl)
  next
    case (Inr v)
    then have "broadcast_axis (length charges) (nrow atoms) \<noteq> Inl BroadcastError"
      using pot [of BroadcastError] by simp
    then show ?thesis
      using Inr by (auto simp add: broadcast_axis_Inl)
  qed
  have raises: "(local_energy features G c2 W atoms charges nspins use_scan forward_laplacian
            params key data = Inl BroadcastError) =
         (length charges \<noteq> nrow atoms \<and> length charges \<noteq> 1 \<and> nrow atoms \<noteq> 1)"
  proof (cases "potential_energy r_ae r_ee atoms charges")
    case (Inl e)
    then have "local_energy features G c2 W atoms charges nspins use_scan forward_laplacian
        params key data = Inl e"
      using assms(1) by (simp add: local_energy_def)
    then show ?thesis
      using pot [of e] Inl by (auto simp add: broadcast_axis_Inl)
  next
    case (Inr v)
    have "local_energy features G c2 W atoms charges nspins use_scan forward_laplacian
        params key data \<noteq> Inl BroadcastError"
    proof (cases "local_kinetic_energy G c2 W use_scan forward_laplacian params data key")
      case (Inl e)
      then have "e = ValueError"
        by (rule local_kinetic_energy_Inl)
      then show ?thesis
        using assms(1) Inr Inl by (simp add: local_energy_def)
    next
      case kin: (Inr w)
      then show ?thesis
        using assms(1) Inr by (simp add: local_energy_def)
    qed
    moreover have "broadcast_axis (length charges) (nrow atoms) \<noteq> Inl BroadcastError"
      using pot [of BroadcastError] Inr by simp
    ultimately show ?thesis
      by (auto simp add: broadcast_axis_Inl)
  qed
  from raises returns show ?thesis
    by (rule conjI)
qed

theorem local_energy_length_mismatch_witness:
  "local_energy distance_features toy_prng 1 toy_wavefn (matrix 3 [[0, 0, 0], [2, 0, 0]])
     [1, 2, 3] [1] False True () 0 [1, 0, 0] = Inl BroadcastError"
proof -
  have "length [1, 2, 3 :: real] \<noteq> nrow (matrix 3 [[0, 0, 0], [2, 0, 0 :: real]]) \<and>
      length [1, 2, 3 :: real] \<noteq> 1 \<and> nrow (matrix 3 [[0, 0, 0], [2, 0, 0 :: real]]) \<noteq> 1"
    by (simp add: matrix_def)
  then show ?thesis
    using local_energy_length_mismatch [where features = distance_features
        and data = "[1, 0, 0]" and atoms = "matrix 3 [[0, 0, 0], [2, 0, 0]]"
        and charges = "[1, 2, 3]" and G = toy_prng and ?c2.0 = 1 and W = toy_wavefn
        and nspins = "[1]" and use_scan = False and forward_laplacian = True
        and params = "()" and key = "0 :: nat", OF toy_features]
    by (simp add: matrix_def)
qed

section \<open>Reordering the electrons\<close>

lemma min_max_apply:
  fixes a b :: "'a :: linorder" and f :: "'a \<Rightarrow> 'b :: linorder"
  shows "min (f (min a b)) (f (max a b)) = min (f a) (f b)"
    and "max (f (min a b)) (f (max a b)) = max (f a) (f b)"
  by (auto simp add: min_def max_def)

lemma sum_pairs_permute:
  fixes g :: "nat \<Rightarrow> nat \<Rightarrow> 'a :: comm_monoid_add"
  assumes bij: "bij_betw P {..<n} {..<n}"
    and sym: "\<And>i j. i < n \<Longrightarrow> j < n \<Longrightarrow> g i j = g j i"
  shows "(\<Sum>i<n. \<Sum>j\<in>{i<..<n}. g (P i) (P j)) = (\<Sum>i<n. \<Sum>j\<in>{i<..<n}. g i j)"
proof -
  define Q where "Q = inv_into {..<n} P"
  define U where "U = (SIGMA i:{..<n}. {i<..<n})"
  define fwd where "fwd = (\<lambda>(i, j). (min (P i) (P j), max (P i) (P j)))"
  define bwd where "bwd = (\<lambda>(a, b). (min (Q a) (Q b), max (Q a) (Q b)))"
  have inj: "inj_on P {..<n}" and img: "P ` {..<n} = {..<n}"
    using bij by (simp_all add: bij_betw_def)
  have P_less: "P i < n" if "i < n" for i
    using img that by blast
  have QP: "Q (P i) = i" if "i < n" for i
    using inj that by (simp add: Q_def)
  have PQ: "P (Q a) = a" if "a < n" for a
    using img that by (simp add: Q_def f_inv_into_f)
  have Q_less: "Q a < n" if "a < n" for a
  proof -
    have "a \<in> P ` {..<n}"
      using img that by simp
    then have "Q a \<in> {..<n}"
      unfolding Q_def by (rule inv_into_into)
    then show ?thesis
      by simp
  qed
  have P_neq: "P i \<noteq> P j" if "i < n" "j < n" "i \<noteq> j" for i j
    using inj that by (auto simp add: inj_on_def)
  have Q_neq: "Q a \<noteq> Q b" if "a < n" "b < n" "a \<noteq> b" for a b
    using PQ [of a] PQ [of b] that by metis
  have "(\<Sum>i<n. \<Sum>j\<in>{i<..<n}. g (P i) (P j)) = (\<Sum>(i, j)\<in>U. g (P i) (P j))"
    unfolding U_def by (rule sum.Sigma) simp_all
  also have "\<dots> = (\<Sum>(i, j)\<in>U. g i j)"
  proof (rule sum.reindex_bij_witness [where i = bwd and j = fwd])
    fix p assume "p \<in> U"
    then obtain i j where p: "p = (i, j)" and ij: "i < j" "j < n" "i < n"
      by (auto simp add: U_def)
    have neq: "P i \<noteq> P j"
      using ij by (intro P_neq) simp_all
    show "bwd (fwd p) = p"
      using ij by (simp add: p fwd_def bwd_def min_max_apply QP)
    show "fwd p \<in> U"
      using ij neq P_less [of i] P_less [of j]
      by (auto simp add: p fwd_def U_def min_def max_def)
    show "(case fwd p of (i, j) \<Rightarrow> g i j) = (case p of (i, j) \<Rightarrow> g (P i) (P j))"
    proof (cases "P i \<le> P j")
      case True
      then show ?thesis
        by (simp add: p fwd_def min_def max_def)
    next
      case False
      then have "(case fwd p of (i, j) \<Rightarrow> g i j) = g (P j) (P i)"
        by (simp add: p fwd_def min_def max_def)
      also have "\<dots> = g (P i) (P j)"
        using ij by (intro sym P_less) simp_all
      finally show ?thesis
        by (simp add: p)
    qed
  next
    fix q assume "q \<in> U"
    then obtain a b where q: "q = (a, b)" and ab: "a < b" "b < n" "a < n"
      by (auto simp add: U_def)
    have neq: "Q a \<noteq> Q b"
      using ab by (intro Q_neq) simp_all
    show "fwd (bwd q) = q"
      using ab by (simp add: q fwd_def bwd_def min_max_apply PQ)
    show "bwd q \<in> U"
      using ab neq Q_less [of a] Q_less [of b]
      by (auto simp add: q bwd_def U_def min_def max_def)
  qed
  also have "\<dots> = (\<Sum>i<n. \<Sum>j\<in>{i<..<n}. g i j)"
    unfolding U_def by (rule sum.Sigma [symmetric]) simp_all
  finally show ?thesis .
qed

lemma leading_permute [simp]:
  "dim0 (permute_ee P r) = dim0 r" "dim1 (permute_ee P r) = dim1 r"
  "dim2 (permute_ee P r) = dim2 r" "get3 (permute_ee P r) i j c = get3 r (P i) (P j) c"
  "dim0 (permute_ae P r) = dim0 r" "dim1 (permute_ae P r) = dim1 r"
  "dim2 (permute_ae P r) = dim2 r" "get3 (permute_ae P r) i j c = get3 r (P i) j c"
  by (simp_all add: permute_ee_def permute_ae_def)

lemma potential_electron_electron_empty:
  "dim2 r = 0 \<Longrightarrow> potential_electron_electron r = Inl IndexError"
  by (simp add: potential_electron_electron_def leading_def)

lemma potential_electron_nuclear_empty:
  "dim2 r = 0 \<Longrightarrow> potential_electron_nuclear charges r = Inl IndexError"
  by (simp add: potential_electron_nuclear_def leading_def)

lemma swap_bij: "bij_betw (\<lambda>i. 1 - i) {..<2::nat} {..<2}"
  by (rule bij_betw_byWitness [where f' = "\<lambda>i. 1 - i"]) auto

text \<open>
  C7. For every permutation \<open>P\<close> of the electron indices, every electron-electron
  distance tensor whose leading channel is symmetric, every electron-atom distance
  tensor and every array of charges: \<^verbatim>\<open>potential_electron_electron\<close> of the tensor
  with both electron axes permuted by \<open>P\<close> equals that of the tensor itself, and
  \<^verbatim>\<open>potential_electron_nuclear\<close> of the electron-atom distances with the electron
  axis permuted by \<open>P\<close> equals that of the distances themselves.
\<close>

theorem potential_permutation_invariant:
  assumes "bij_betw P {..<n} {..<n}"
    and "dim0 r_ee = n" and "dim1 r_ee = n"
    and "\<forall>i<n. \<forall>j<n. get3 r_ee i j 0 = get3 r_ee j i 0"
    and "dim0 r_ae = n"
  shows "potential_electron_electron (permute_ee P r_ee) = potential_electron_electron r_ee \<and>
    potential_electron_nuclear charges (permute_ae P r_ae) =
    potential_electron_nuclear charges r_ae"
proof
  show "potential_electron_electron (permute_ee P r_ee) = potential_electron_electron r_ee"
  proof (cases "dim2 r_ee = 0")
    case True
    then show ?thesis
      by (simp add: potential_electron_electron_empty)
  next
    case False
    have "(\<Sum>i<n. \<Sum>j\<in>{i<..<n}. fdiv 1 (get3 r_ee (P i) (P j) 0)) =
          (\<Sum>i<n. \<Sum>j\<in>{i<..<n}. fdiv 1 (get3 r_ee i j 0))"
      using assms(1)
    proof (rule sum_pairs_permute)
      fix i j assume "i < n" and "j < n"
      then have "get3 r_ee i j 0 = get3 r_ee j i 0"
        using assms(4) by blast
      then show "fdiv 1 (get3 r_ee i j 0) = fdiv 1 (get3 r_ee j i 0)"
        by simp
    qed
    then show ?thesis
      using False assms(2,3) by (simp add: potential_electron_electron_sum)
  qed
next
  show "potential_electron_nuclear charges (permute_ae P r_ae) =
      potential_electron_nuclear charges r_ae"
  proof (cases "dim2 r_ae = 0")
    case True
    then show ?thesis
      by (simp add: potential_electron_nuclear_empty)
  next
    case False
    have rows: "(\<Sum>i<n. h (P i)) = (\<Sum>i<n. h i)" for h :: "nat \<Rightarrow> fl"
      using assms(1) by (rule sum.reindex_bij_betw)
    show ?thesis
    proof (cases "broadcast_axis (length charges) (dim1 r_ae)")
      case (Inl e)
      then show ?thesis
        using False by (simp add: potential_electron_nuclear_cases)
    next
      case (Inr c)
      define h where "h = (\<lambda>i. \<Sum>j<c. fdiv (charges ! (if length charges = 1 then 0 else j))
          (get3 r_ae i (if dim1 r_ae = 1 then 0 else j) 0))"
      have permuted: "potential_electron_nuclear charges (permute_ae P r_ae) =
          Inr (fl_neg (\<Sum>i<n. h (P i)))"
        using False Inr assms(5) by (simp add: potential_electron_nuclear_cases h_def)
      have plain: "potential_electron_nuclear charges r_ae = Inr (fl_neg (\<Sum>i<n. h i))"
        using False Inr assms(5) by (simp add: potential_electron_nuclear_cases h_def)
      show ?thesis
        by (simp only: permuted plain rows)
    qed
  qed
qed

theorem potential_permutation_invariant_witness:
  "potential_electron_electron (permute_ee (\<lambda>i. 1 - i) (tensor 2 1 [[[0], [2]], [[2], [0]]])) =
     potential_electron_electron (tensor 2 1 [[[0], [2]], [[2], [0]]]) \<and>
   potential_electron_nuclear [1, 2] (permute_ae (\<lambda>i. 1 - i) (tensor 2 1 [[[1], [2]], [[4], [1]]])) =
     potential_electron_nuclear [1, 2] (tensor 2 1 [[[1], [2]], [[4], [1]]])"
proof -
  let ?r_ee = "tensor 2 1 [[[0], [2]], [[2], [0::real]]]"
  let ?r_ae = "tensor 2 1 [[[1], [2]], [[4], [1::real]]]"
  have shape: "dim0 ?r_ee = 2" "dim1 ?r_ee = 2"
    by (simp_all add: tensor_def)
  have sym: "\<forall>i<2. \<forall>j<2. get3 ?r_ee i j 0 = get3 ?r_ee j i 0"
    by (simp add: all_less_2 tensor_def)
  have ae: "dim0 ?r_ae = 2"
    by (simp add: tensor_def)
  show ?thesis
    by (rule potential_permutation_invariant [OF swap_bij shape sym ae])
qed

section \<open>The expectation of the stochastic trace estimate\<close>

lemma sum_list_concat_map:
  fixes f :: "'a \<Rightarrow> 'b :: monoid_add"
  shows "sum_list (map f (concat xss)) = (\<Sum>xs\<leftarrow>xss. \<Sum>x\<leftarrow>xs. f x)"
  by (induction xss) simp_all

lemma length_draws: "length (draws pool k) = num_draws (length pool) k"
proof (induction k arbitrary: pool)
  case 0
  show ?case by simp
next
  case (Suc k)
  have "map (\<lambda>x. length (draws (remove1 x pool) k)) pool =
      map (\<lambda>x. num_draws (length pool - 1) k) pool"
    by (rule map_cong) (simp_all add: Suc length_remove1)
  then have "(\<Sum>x\<leftarrow>pool. length (draws (remove1 x pool) k)) =
      length pool * num_draws (length pool - 1) k"
    by (simp only: sum_list_triv) simp
  then show ?case
    by (simp add: length_concat comp_def)
qed

lemma draws_members:
  "l \<in> set (draws pool k) \<Longrightarrow> length l = k \<and> set l \<subseteq> set pool"
proof (induction k arbitrary: pool l)
  case 0
  then show ?case by simp
next
  case (Suc k)
  then obtain x l' where x: "x \<in> set pool" and l': "l' \<in> set (draws (remove1 x pool) k)"
    and l: "l = x # l'"
    by auto
  from Suc.IH [OF l'] have "length l' = k" and "set l' \<subseteq> set (remove1 x pool)"
    by simp_all
  moreover have "set (remove1 x pool) \<subseteq> set pool"
    by (rule set_remove1_subset)
  ultimately show ?case
    using x l by auto
qed

lemma num_draws_pos: "k \<le> n \<Longrightarrow> 0 < num_draws n k"
  by (induction k arbitrary: n) simp_all

lemma sum_draws:
  fixes a :: "nat \<Rightarrow> real"
  shows "(\<Sum>l\<leftarrow>draws pool (Suc k). \<Sum>i\<leftarrow>l. a i) =
    real (Suc k) * real (num_draws (length pool - 1) k) * (\<Sum>i\<leftarrow>pool. a i)"
proof (induction k arbitrary: pool)
  case 0
  show ?case
    by (simp add: sum_list_concat_map comp_def)
next
  case (Suc k)
  define n where "n = length pool"
  define A where "A = (\<Sum>i\<leftarrow>pool. a i)"
  define M where "M = real (num_draws (n - 2) k)"
  have inner: "(\<Sum>l\<leftarrow>draws (remove1 x pool) (Suc k). a x + (\<Sum>i\<leftarrow>l. a i)) =
      real (n - 1) * M * a x + real (Suc k) * M * (A - a x)" if "x \<in> set pool" for x
  proof -
    have len: "length (remove1 x pool) = n - 1"
      using that by (simp add: length_remove1 n_def)
    have "(\<Sum>i\<leftarrow>remove1 x pool. a i) = A - a x"
      using sum_list_map_remove1 [OF that, of a] by (simp add: A_def)
    moreover have "n - 1 - 1 = n - 2"
      by simp
    ultimately have "(\<Sum>l\<leftarrow>draws (remove1 x pool) (Suc k). \<Sum>i\<leftarrow>l. a i) =
        real (Suc k) * M * (A - a x)"
      using Suc [of "remove1 x pool"] by (simp only: len M_def)
    moreover have "length (draws (remove1 x pool) (Suc k)) = (n - 1) * num_draws (n - 2) k"
      by (simp add: length_draws len numeral_2_eq_2 del: draws.simps(2))
    then have "real (length (draws (remove1 x pool) (Suc k))) = real (n - 1) * M"
      by (simp only: M_def of_nat_mult)
    ultimately show ?thesis
      by (simp only: sum_list_addf sum_list_triv mult.commute [of "a x"])
  qed
  have "(\<Sum>l\<leftarrow>draws pool (Suc (Suc k)). \<Sum>i\<leftarrow>l. a i) =
      (\<Sum>x\<leftarrow>pool. \<Sum>l\<leftarrow>draws (remove1 x pool) (Suc k). a x + (\<Sum>i\<leftarrow>l. a i))"
    by (simp add: sum_list_concat_map comp_def)
  also have "\<dots> = (\<Sum>x\<leftarrow>pool. real (n - 1) * M * a x + real (Suc k) * M * (A - a x))"
    by (rule arg_cong [where f = sum_list], rule map_cong [OF refl], rule inner)
  also have "\<dots> = real (n - 1) * M * A + real (Suc k) * M * (real n * A - A)"
    by (simp add: sum_list_addf sum_list_const_mult sum_list_subtractf sum_list_triv A_def n_def)
  also have "\<dots> = real (Suc (Suc k)) * (real (n - 1) * M) * A"
  proof (cases "n = 0")
    case True
    then show ?thesis
      by (simp add: A_def n_def)
  next
    case False
    then have "real n * A - A = real (n - 1) * A"
      by (simp add: of_nat_diff algebra_simps)
    then show ?thesis
      by (simp add: algebra_simps)
  qed
  finally show ?case
    by (simp add: n_def A_def M_def numeral_2_eq_2 mult.assoc)
qed

lemma sum_list_upt: "(\<Sum>i\<leftarrow>[0..<n]. f i) = (\<Sum>i<n. f i)"
  by (simp add: interv_sum_list_conv_sum_set_nat atLeast0LessThan)

lemma length_eye_row [simp]: "length (eye_row n i) = n"
  by (simp add: eye_row_def)

lemma eye_row_nth:
  assumes "i < n" and "a < n"
  shows "eye_row n i ! a = (if a = i then 1 else 0)"
proof -
  have "min i (n - 1) = i"
    using assms(1) by simp
  then show ?thesis
    using assms(2) by (simp add: eye_row_def)
qed

lemma sum_unit_left:
  fixes f :: "nat \<Rightarrow> real"
  assumes "i < n"
  shows "(\<Sum>a<n. (if a = i then c else 0) * f a) = c * f i"
proof -
  have "(\<Sum>a<n. (if a = i then c else 0) * f a) = (\<Sum>a<n. if a = i then c * f a else 0)"
    by (rule sum.cong) simp_all
  then show ?thesis
    using assms by simp
qed

lemma sum_unit_right:
  fixes f :: "nat \<Rightarrow> real"
  assumes "i < n"
  shows "(\<Sum>a<n. f a * (if a = i then c else 0)) = f i * c"
proof -
  have "(\<Sum>a<n. f a * (if a = i then c else 0)) = (\<Sum>a<n. if a = i then f a * c else 0)"
    by (rule sum.cong) simp_all
  then show ?thesis
    using assms by simp
qed

lemma quad_form_probe:
  assumes "i < n"
  shows "quad_form H (map (\<lambda>x. x * real n) (eye_row n i)) = (real n)\<^sup>2 * H i i"
proof -
  let ?v = "map (\<lambda>x. x * real n) (eye_row n i)"
  have v: "?v ! a = (if a = i then real n else 0)" if "a < n" for a
    using assms that by (simp add: eye_row_nth)
  have "quad_form H ?v = (\<Sum>a<n. \<Sum>b<n. ?v ! a * H a b * ?v ! b)"
    by (simp add: quad_form_def sum_list_upt)
  also have "\<dots> = (\<Sum>a<n. \<Sum>b<n. (if a = i then real n else 0) * H a b *
      (if b = i then real n else 0))"
  proof (intro sum.cong refl)
    fix a b assume "a \<in> {..<n}" and "b \<in> {..<n}"
    then have "a < n" and "b < n"
      by simp_all
    then show "?v ! a * H a b * ?v ! b =
        (if a = i then real n else 0) * H a b * (if b = i then real n else 0)"
      by (simp only: v)
  qed
  also have "\<dots> = (\<Sum>a<n. (if a = i then real n else 0) *
      (\<Sum>b<n. H a b * (if b = i then real n else 0)))"
    by (simp add: sum_distrib_left mult.assoc)
  also have "\<dots> = (\<Sum>a<n. (if a = i then real n else 0) * (H a i * real n))"
    using assms by (simp only: sum_unit_right)
  also have "\<dots> = real n * (H i i * real n)"
    using assms by (rule sum_unit_left)
  finally show ?thesis
    by (simp add: power2_eq_square)
qed

lemma linearize_diagonal:
  assumes "i < length data"
  shows "snd (linearize_grad W params data) (eye_row (length data) i) ! i = hess W params data i i"
proof -
  have "(\<Sum>j<length data. hess W params data i j * eye_row (length data) i ! j) =
      (\<Sum>j<length data. hess W params data i j * (if j = i then 1 else 0))"
    using assms by (intro sum.cong refl) (simp add: eye_row_nth)
  also have "\<dots> = hess W params data i i * 1"
    using assms by (rule sum_unit_right)
  finally show ?thesis
    using assms by (simp add: linearize_grad_def sum_list_upt)
qed

text \<open>The exact loop-based algorithm computes the trace itself.\<close>

lemma lapl_over_f_trace:
  assumes "data \<noteq> []"
  shows "lapl_over_f W use_scan params data rng =
    Inr (Fin (- 0.5 * (\<Sum>i<length data. hess W params data i i)
              - 0.5 * sum_sq (grad W params data)))"
proof -
  define n where "n = length data"
  define d where "d = (\<lambda>i. snd (linearize_grad W params data) (eye_row n i) ! i)"
  have "map d [0..<n] = map (\<lambda>i. hess W params data i i) [0..<n]"
    by (rule map_cong [OF refl]) (simp add: d_def n_def linearize_diagonal)
  then have total: "sum_list (map d [0..<n]) = (\<Sum>i<n. hess W params data i i)"
    by (simp only: sum_list_upt)
  have seq: "fori_loop 0 n (\<lambda>i val. val + d i) 0 = (\<Sum>i<n. hess W params data i i)"
    by (simp add: fori_loop_add total)
  have red: "scan (\<lambda>i. (i + 1, d i)) 0 n = (n, map d [0..<n])"
    using scan_counter [of d 0 n] by simp
  have primal: "fst (linearize_grad W params data) = grad W params data"
    by (simp add: linearize_grad_def)
  have "n \<noteq> 0"
    using assms by (simp add: n_def)
  then show ?thesis
    unfolding lapl_over_f_def Let_def n_def [symmetric]
    by (cases use_scan)
      (simp_all only: case_prod_beta seq [unfolded d_def] red [unfolded d_def]
        total [unfolded d_def] primal if_True if_False snd_conv)
qed

lemma sum_list_Fin:
  assumes "\<And>x. x \<in> set xs \<Longrightarrow> F x = Fin (f x)"
  shows "sum_list (map F xs) = Fin (sum_list (map f xs))"
  using assms by (induction xs) (simp_all add: zero_fl_def)

lemma sdgd_estimate_value:
  assumes "idx_set \<noteq> []" and "\<And>i. i \<in> set idx_set \<Longrightarrow> i < length data"
  shows "sdgd_estimate G key c2 W params data idx_set =
    Fin (c2 * (real (length data))\<^sup>2 * (\<Sum>i\<leftarrow>idx_set. hess W params data i i)
           / real (length idx_set))"
proof -
  define n where "n = length data"
  define H where "H = hess W params data"
  obtain i where "i \<in> set idx_set"
    using assms(1) by (cases idx_set) auto
  then have "n \<noteq> 0"
    using assms(2) [of i] by (auto simp add: n_def)
  have "map (\<lambda>i. c2 * quad_form H (map (\<lambda>x. x * real n) (eye_row n i))) idx_set =
      map (\<lambda>i. c2 * ((real n)\<^sup>2 * H i i)) idx_set"
    by (rule map_cong [OF refl]) (simp add: quad_form_probe assms(2) n_def)
  then have "(\<Sum>i\<leftarrow>idx_set. c2 * quad_form H (map (\<lambda>x. x * real n) (eye_row n i))) =
      c2 * (real n)\<^sup>2 * (\<Sum>i\<leftarrow>idx_set. H i i)"
    by (simp only: sum_list_const_mult mult.assoc)
  moreover have "real (length idx_set) \<noteq> 0"
    using assms(1) by simp
  ultimately show ?thesis
    using \<open>n \<noteq> 0\<close>
    by (simp add: sdgd_estimate_def get_random_vec_def trace_est_def jet_def jnp_mean_def
        fdiv_def comp_def n_def [symmetric] H_def [symmetric])
qed

text \<open>
  The probe vector of an index is the basis vector scaled by the dimension \<open>D\<close>, and the
  second-order term is quadratic in the probe vector: every estimate carries the factor
  \<open>D\<^sup>2\<close>, and its expectation over the uniform choice of \<open>k\<close> indices is \<open>D\<close>
  times the trace of the second derivative (times the normalisation \<open>c2\<close> of the
  series), whatever \<open>k\<close> is.
\<close>

lemma sdgd_estimate_expectation:
  assumes "0 < k" and "k \<le> length data"
  shows "expectation (length data) k (sdgd_estimate G key c2 W params data) =
    Fin (c2 * real (length data) * (\<Sum>i<length data. hess W params data i i))"
proof -
  define n where "n = length data"
  define H where "H = (\<lambda>i. hess W params data i i)"
  define ds where "ds = draws [0..<n] k"
  obtain k' where k: "k = Suc k'"
    using assms(1) by (cases k) simp_all
  have n: "0 < n" "k' \<le> n - 1"
    using assms k by (auto simp add: n_def)
  define M where "M = real (num_draws (n - 1) k')"
  have M: "0 < M"
    using n(2) by (simp add: M_def num_draws_pos)
  have each: "sdgd_estimate G key c2 W params data l =
      Fin (c2 * (real n)\<^sup>2 / real k * (\<Sum>i\<leftarrow>l. H i))" if "l \<in> set ds" for l
  proof -
    from that have len: "length l = k" and sub: "set l \<subseteq> set [0..<n]"
      using draws_members [of l "[0..<n]" k] by (simp_all add: ds_def)
    from len assms(1) have "l \<noteq> []"
      by auto
    moreover have "i < length data" if "i \<in> set l" for i
      using sub that by (auto simp add: n_def)
    ultimately show ?thesis
      by (simp add: sdgd_estimate_value len n_def H_def)
  qed
  have "(\<Sum>l\<leftarrow>ds. \<Sum>i\<leftarrow>l. H i) = real k * M * (\<Sum>i\<leftarrow>[0..<n]. H i)"
    unfolding ds_def k M_def by (simp only: sum_draws length_upt diff_zero)
  then have total: "(\<Sum>l\<leftarrow>ds. c2 * (real n)\<^sup>2 / real k * (\<Sum>i\<leftarrow>l. H i)) =
      c2 * (real n)\<^sup>2 / real k * (real k * M * (\<Sum>i<n. H i))"
    by (simp only: sum_list_const_mult sum_list_upt)
  have count: "real (length ds) = real n * M"
    unfolding ds_def k M_def by (simp add: length_draws del: draws.simps(2))
  have "sum_list (map (sdgd_estimate G key c2 W params data) ds) =
      Fin (c2 * (real n)\<^sup>2 / real k * (real k * M * (\<Sum>i<n. H i)))"
    using sum_list_Fin [of ds "sdgd_estimate G key c2 W params data", OF each]
    by (simp only: total)
  moreover have "c2 * (real n)\<^sup>2 / real k * (real k * M * (\<Sum>i<n. H i)) / (real n * M) =
      c2 * real n * (\<Sum>i<n. H i)"
    using n(1) M assms(1) by (simp add: power2_eq_square field_simps)
  moreover have "real n * M \<noteq> 0"
    using n(1) M by simp
  ultimately show ?thesis
    unfolding expectation_def n_def [symmetric] ds_def [symmetric] count
    by (simp add: fdiv_def H_def)
qed

lemma randomized_lapl_over_f_estimate:
  assumes "get_sdgd_idx_set G rng (length data) 16 = Inr idx_set" and "data \<noteq> []"
  shows "randomized_lapl_over_f G c2 W params data rng =
    Inr (fl_scale (- 0.5)
      (sdgd_estimate G rng c2 W params data idx_set + Fin (sum_sq (grad W params data))))"
  using assms
  by (simp add: randomized_lapl_over_f_def sdgd_estimate_def get_random_vec_def Let_def)

lemma sum_sq_zeros: "sum_sq (replicate n 0) = 0"
  by (induction n) (simp_all add: sum_sq_def)

text \<open>
  C1 states that the trace estimate of the stochastic estimator is unbiased: that its
  expectation over the uniform choice of the index set, without replacement, is the sum
  of the diagonal entries of the second derivative. The function does not meet it. For
  the log-magnitude \<open>|x|\<^sup>2 / 2\<close> in dimension \<open>18\<close>, whose second derivative is
  the identity, the expectation of the estimate is \<open>324\<close> where the trace is \<open>18\<close>
  (and \<open>162\<close> if the second-order term is read as a Taylor coefficient), and at the
  origin the stochastic algorithm returns \<open>-162\<close> where the exact loop-based
  algorithm returns \<open>-9\<close>.
\<close>

theorem trace_est_expectation_biased:
  "expectation 18 16 (sdgd_estimate toy_prng (0 :: nat) 1 toy_wavefn () (replicate 18 0)) =
     Fin 324 \<and>
   expectation 18 16 (sdgd_estimate toy_prng (0 :: nat) (1 / 2) toy_wavefn () (replicate 18 0)) =
     Fin 162 \<and>
   (\<Sum>i<18. hess toy_wavefn () (replicate 18 0) i i) = 18 \<and>
   randomized_lapl_over_f toy_prng 1 toy_wavefn () (replicate 18 0) (0 :: nat) =
     Inr (Fin (- 162)) \<and>
   lapl_over_f toy_wavefn False () (replicate 18 0) (0 :: nat) = Inr (Fin (- 9))"
proof -
  let ?data = "replicate 18 (0 :: real)"
  have len: "length ?data = 18"
    by simp
  have ne: "?data \<noteq> []"
    by simp
  have diag: "hess toy_wavefn () ?data i i = 1" for i
    by (simp add: toy_wavefn_def)
  have tr: "(\<Sum>i<18. hess toy_wavefn () ?data i i) = 18"
    by (simp add: diag)
  have grad: "sum_sq (grad toy_wavefn () ?data) = 0"
    by (simp add: toy_wavefn_def sum_sq_zeros)
  have "expectation (length ?data) 16 (sdgd_estimate toy_prng (0 :: nat) 1 toy_wavefn () ?data) =
      Fin (1 * real (length ?data) * (\<Sum>i<length ?data. hess toy_wavefn () ?data i i))"
    by (rule sdgd_estimate_expectation) simp_all
  then have mean: "expectation 18 16 (sdgd_estimate toy_prng (0 :: nat) 1 toy_wavefn () ?data) =
      Fin 324"
    unfolding len tr by simp
  have "expectation (length ?data) 16
        (sdgd_estimate toy_prng (0 :: nat) (1 / 2) toy_wavefn () ?data) =
      Fin (1 / 2 * real (length ?data) * (\<Sum>i<length ?data. hess toy_wavefn () ?data i i))"
    by (rule sdgd_estimate_expectation) simp_all
  then have half: "expectation 18 16
        (sdgd_estimate toy_prng (0 :: nat) (1 / 2) toy_wavefn () ?data) = Fin 162"
    unfolding len tr by simp
  define idx_set where "idx_set = choice toy_prng (0 :: nat) 18 16"
  have idx_len: "length idx_set = 16" and idx_less: "i \<in> set idx_set \<Longrightarrow> i < 18" for i
    by (auto simp add: idx_set_def toy_choice)
  have drawn: "get_sdgd_idx_set toy_prng (0 :: nat) (length ?data) 16 = Inr idx_set"
    by (simp add: get_sdgd_idx_set_def random_choice_def idx_set_def)
  have "idx_set \<noteq> []"
    using idx_len by auto
  then have "sdgd_estimate toy_prng (0 :: nat) 1 toy_wavefn () ?data idx_set =
      Fin (1 * (real (length ?data))\<^sup>2 * (\<Sum>i\<leftarrow>idx_set. hess toy_wavefn () ?data i i)
             / real (length idx_set))"
    by (rule sdgd_estimate_value) (simp add: idx_less)
  then have est: "sdgd_estimate toy_prng (0 :: nat) 1 toy_wavefn () ?data idx_set = Fin 324"
    by (simp add: diag sum_list_triv idx_len)
  have stochastic: "randomized_lapl_over_f toy_prng 1 toy_wavefn () ?data (0 :: nat) =
      Inr (Fin (- 162))"
    unfolding randomized_lapl_over_f_estimate [OF drawn ne] est grad by simp
  have exact: "lapl_over_f toy_wavefn False () ?data (0 :: nat) = Inr (Fin (- 9))"
    unfolding lapl_over_f_trace [OF ne] len tr grad by simp
  from mean half tr stochastic exact show ?thesis
    by (intro conjI)
qed

end
